theory Spec2Isabelle
  imports Complex_Main "HOL-Library.Word" "HOL-Library.Log_Nat" "HOL-Library.Monad_Syntax"
begin

unbundle bit_operations_syntax

section \<open>Machine integers of the target\<close>

text \<open>
  The program is written for a 32-bit core: \<open>int\<close> and \<open>unsigned int\<close> are both 32 bits
  wide. Both are modelled as \<open>32 word\<close>; an \<open>unsigned int\<close> is read with \<open>unat\<close>, an
  \<open>int\<close> with \<open>sint\<close> (two's complement). Addition and subtraction wrap around, as the
  machine's do. A shift whose amount is negative or not below the width has no defined
  result in C; the shift operations below return \<open>None\<close> there.
\<close>

type_synonym u32 = "32 word"
type_synonym i32 = "32 word"

text \<open>\<open>x >> c\<close> for an \<open>unsigned int\<close> x and an \<open>int\<close> amount c: a logical shift.\<close>

definition shr_u32 :: "u32 \<Rightarrow> i32 \<Rightarrow> u32 option" where
  "shr_u32 x c = (if 0 \<le> sint c \<and> sint c < 32 then Some (drop_bit (nat (sint c)) x) else None)"

text \<open>\<open>c >> k\<close> for an \<open>int\<close> c and a literal amount k below 32: an arithmetic shift.\<close>

definition sar_i32 :: "i32 \<Rightarrow> nat \<Rightarrow> i32" where
  "sar_i32 c k = signed_drop_bit k c"

text \<open>
  \<open>a << k\<close> for an \<open>int\<close> a and an \<open>unsigned int\<close> amount k. An amount of 32 or more has
  no defined result. For a smaller amount the result is the one of the machine's shift
  instruction: bits shifted past bit 31 are lost, so \<open>1 << 31\<close> is the word with only
  bit 31 set, and \<open>(1 << 31) - 1\<close> wraps around to \<open>2 ^ 31 - 1\<close>.
\<close>

definition shl_i32 :: "i32 \<Rightarrow> u32 \<Rightarrow> i32 option" where
  "shl_i32 a k = (if unat k < 32 then Some (push_bit (unat k) a) else None)"

section \<open>\<open>clz\<close>: count leading zeros\<close>

text \<open>
  One round of the do-while body, on the three variables \<open>x\<close>, \<open>n\<close> and \<open>c\<close>:
  \<^verbatim>\<open>unsigned int y = x >> c; if (y) { n -= c; x = y; } c >>= 1;\<close>
\<close>

definition clz_round :: "u32 \<Rightarrow> i32 \<Rightarrow> i32 \<Rightarrow> (u32 \<times> i32 \<times> i32) option" where
  "clz_round x n c =
     do { y \<leftarrow> shr_u32 x c;
          let (n', x') = (if y \<noteq> 0 then (n - c, y) else (n, x));
          Some (x', n', sar_i32 c 1) }"

text \<open>
  The loop \<^verbatim>\<open>do { ... } while (c);\<close>: the body runs first, the test follows. Nothing in
  the loop itself bounds the number of rounds (a negative stride would never reach 0), so
  the loop is a partial function and \<open>None\<close> stands for "no result".
\<close>

partial_function (option) clz_loop :: "u32 \<Rightarrow> i32 \<Rightarrow> i32 \<Rightarrow> (u32 \<times> i32 \<times> i32) option" where
  "clz_loop x n c =
     do { (x', n', c') \<leftarrow> clz_round x n c;
          if c' \<noteq> 0 then clz_loop x' n' c' else Some (x', n', c') }"

declare clz_loop.simps [code]

text \<open>
  \<^verbatim>\<open>int n = 32, c = 16; do ... while (c); return n - x;\<close>
  The subtraction \<open>n - x\<close> converts \<open>n\<close> to \<open>unsigned int\<close> and wraps.
\<close>

definition clz :: "u32 \<Rightarrow> u32 option" where
  "clz x = do { (x', n', c') \<leftarrow> clz_loop x 32 16; Some (n' - x') }"

section \<open>\<open>smallestNumber\<close>\<close>

text \<open>
  \<^verbatim>\<open>int bit_len = (1 << (32-clz(n)))-1; return bit_len;\<close>
  The argument \<open>n\<close> is an \<open>int\<close> and is converted to \<open>unsigned int\<close> for \<open>clz\<close> (the same
  32 bits). \<open>32 - clz(n)\<close> is unsigned; \<open>1 << ...\<close> and \<open>... - 1\<close> are \<open>int\<close> operations.
\<close>

definition smallestNumber :: "i32 \<Rightarrow> i32 option" where
  "smallestNumber n =
     do { z \<leftarrow> clz n;
          p \<leftarrow> shl_i32 1 (32 - z);
          let bit_len = p - 1;
          Some bit_len }"

section \<open>\<open>main\<close>: the driver\<close>

text \<open>
  \<open>main\<close> stores through constant addresses. The machine state is the memory, a map
  from byte address to the \<open>int\<close> object stored there, together with the sequence of
  stores performed so far (oldest first), which is the only output the program has.
\<close>

record machine =
  mem :: "u32 \<rightharpoonup> i32"
  stores :: "(u32 \<times> i32) list"

text \<open>\<^verbatim>\<open>*(int *) (a) = v;\<close>\<close>

definition store_int :: "u32 \<Rightarrow> i32 \<Rightarrow> machine \<Rightarrow> machine" where
  "store_int a v m = m\<lparr>mem := (mem m)(a \<mapsto> v), stores := stores m @ [(a, v)]\<rparr>"

text \<open>
  \<^verbatim>\<open>*(int *) (4) = smallestNumber(1);
  *(int *) (8) = smallestNumber(509);
  *(int *) (12) = smallestNumber(1000);\<close>
  \<open>main\<close> has no \<open>return\<close> statement; the model returns the final machine state only.
\<close>

definition main :: "machine \<Rightarrow> machine option" where
  "main m0 =
     do { v1 \<leftarrow> smallestNumber 1;
          let m1 = store_int 4 v1 m0;
          v2 \<leftarrow> smallestNumber 509;
          let m2 = store_int 8 v2 m1;
          v3 \<leftarrow> smallestNumber 1000;
          let m3 = store_int 12 v3 m2;
          Some m3 }"

section \<open>Notions of the specification\<close>

text \<open>
  Following the spec's words, not the code: the bit length of \<open>x\<close> is "the position of
  the highest set bit plus one". The search runs from bit 31 downwards and yields 0 when
  no bit is set.
\<close>

primrec spec_bit_length_below :: "nat \<Rightarrow> u32 \<Rightarrow> nat" where
  "spec_bit_length_below 0 x = 0"
| "spec_bit_length_below (Suc k) x = (if bit x k then Suc k else spec_bit_length_below k x)"

definition spec_bit_length :: "u32 \<Rightarrow> nat" where
  "spec_bit_length x = spec_bit_length_below 32 x"

section \<open>Shifts on words as arithmetic\<close>

lemma two_power_less_imp_less: "(2::nat) ^ a < 2 ^ b \<Longrightarrow> a < b"
  by simp

lemma unat_drop_bit32: "unat (drop_bit k (x::32 word)) = unat x div 2 ^ k"
  unfolding unat_drop_bit_eq by (rule drop_bit_eq_div)

lemma drop_bit_nonzero_less:
  fixes x0 :: "32 word"
  assumes "drop_bit m x0 \<noteq> 0"
  shows "m < 32"
proof (rule ccontr)
  assume "\<not> m < 32"
  then have "32 \<le> m" by simp
  have "unat x0 < 2 ^ 32" using unsigned_less [of x0] by simp
  also have "(2::nat) ^ 32 \<le> 2 ^ m" using \<open>32 \<le> m\<close> by (rule power_increasing) simp
  finally have "unat x0 div 2 ^ m = 0" by simp
  then have "unat (drop_bit m x0) = 0" by (simp add: unat_drop_bit32)
  then have "drop_bit m x0 = 0" by (simp add: unat_eq_0)
  with assms show False by simp
qed

section \<open>The loop of \<open>clz\<close>\<close>

text \<open>
  The invariant of the loop, for an input \<open>x0\<close>, before a round with stride \<open>k\<close>: the
  current \<open>x\<close> is \<open>x0\<close> shifted right by \<open>32 - n\<close>, it is below \<open>2 ^ (2 * k)\<close>, and it is
  zero only if \<open>x0\<close> is. One round re-establishes it for the halved stride.
\<close>

lemma clz_round_inv:
  fixes x x0 n :: "32 word"
  assumes k: "k \<in> {1, 2, 4, 8, 16}"
    and bx: "unat x < 2 ^ (2 * k)"
    and bn: "unat n \<le> 32"
    and xs: "x = drop_bit (32 - unat n) x0"
    and z: "(x = 0) = (x0 = 0)"
    and zn: "x0 = 0 \<longrightarrow> n = 32"
  shows "\<exists>x' n'. clz_round x n (of_nat k) = Some (x', n', of_nat (k div 2))
           \<and> unat x' < 2 ^ k \<and> unat n' \<le> 32 \<and> x' = drop_bit (32 - unat n') x0
           \<and> (x' = 0) = (x0 = 0) \<and> (x0 = 0 \<longrightarrow> n' = 32)"
proof -
  have sh: "shr_u32 x (of_nat k) = Some (drop_bit k x)"
    using k by (auto simp: shr_u32_def)
  have sa: "sar_i32 (of_nat k) 1 = (of_nat (k div 2) :: 32 word)"
    using k by (auto simp: sar_i32_def)
  show ?thesis
  proof (cases "drop_bit k x = 0")
    case True
    then have "unat x div 2 ^ k = 0"
      using unat_drop_bit32 [of k x] by simp
    then have "unat x < 2 ^ k" by (simp add: div_eq_0_iff)
    with True sh sa bn xs z zn show ?thesis
      by (simp add: clz_round_def)
  next
    case False
    then have nz: "drop_bit (k + (32 - unat n)) x0 \<noteq> 0"
      using xs by (simp add: add.commute)
    then have lt: "k + (32 - unat n) < 32" by (rule drop_bit_nonzero_less)
    then have kn: "k < unat n" by simp
    have kw: "unat (of_nat k :: 32 word) = k" using k by auto
    have un: "unat (n - of_nat k) = unat n - k"
      using kn kw by (simp add: unat_sub_if')
    have e1: "32 - (unat n - k) = k + (32 - unat n)" using kn bn by simp
    have x0nz: "x0 \<noteq> 0" using nz by auto
    have "unat (drop_bit k x) = unat x div 2 ^ k" by (rule unat_drop_bit32)
    also have "\<dots> < 2 ^ k"
    proof -
      have "unat x < 2 ^ k * 2 ^ k" using bx by (simp add: power_add [symmetric] mult_2)
      then show ?thesis by (simp add: less_mult_imp_div_less)
    qed
    finally have b': "unat (drop_bit k x) < 2 ^ k" .
    have x': "drop_bit k x = drop_bit (32 - (unat n - k)) x0"
      using xs e1 by (simp add: add.commute)
    from False sh sa b' un bn x' x0nz show ?thesis
      by (simp add: clz_round_def)
  qed
qed

text \<open>From the initial state the five rounds succeed one after the other.\<close>

lemma clz_rounds:
  fixes x0 :: "32 word"
  shows "\<exists>x1 n1 x2 n2 x3 n3 x4 n4 x5 n5.
           clz_round x0 32 16 = Some (x1, n1, 8)
         \<and> clz_round x1 n1 8 = Some (x2, n2, 4)
         \<and> clz_round x2 n2 4 = Some (x3, n3, 2)
         \<and> clz_round x3 n3 2 = Some (x4, n4, 1)
         \<and> clz_round x4 n4 1 = Some (x5, n5, 0)
         \<and> unat x5 < 2 \<and> unat n5 \<le> 32 \<and> x5 = drop_bit (32 - unat n5) x0
         \<and> (x5 = 0) = (x0 = 0) \<and> (x0 = 0 \<longrightarrow> n5 = 32)"
proof -
  have b0: "unat x0 < 2 ^ (2 * 16)" using unsigned_less [of x0] by simp
  from clz_round_inv [of 16 x0 32 x0] b0
  obtain x1 n1 where r1: "clz_round x0 32 16 = Some (x1, n1, 8)"
    and i1: "unat x1 < 2 ^ (2 * 8)" "unat n1 \<le> 32" "x1 = drop_bit (32 - unat n1) x0"
            "(x1 = 0) = (x0 = 0)" "x0 = 0 \<longrightarrow> n1 = 32"
    by auto
  from clz_round_inv [of 8 x1 n1 x0] i1
  obtain x2 n2 where r2: "clz_round x1 n1 8 = Some (x2, n2, 4)"
    and i2: "unat x2 < 2 ^ (2 * 4)" "unat n2 \<le> 32" "x2 = drop_bit (32 - unat n2) x0"
            "(x2 = 0) = (x0 = 0)" "x0 = 0 \<longrightarrow> n2 = 32"
    by auto
  from clz_round_inv [of 4 x2 n2 x0] i2
  obtain x3 n3 where r3: "clz_round x2 n2 4 = Some (x3, n3, 2)"
    and i3: "unat x3 < 2 ^ (2 * 2)" "unat n3 \<le> 32" "x3 = drop_bit (32 - unat n3) x0"
            "(x3 = 0) = (x0 = 0)" "x0 = 0 \<longrightarrow> n3 = 32"
    by auto
  from clz_round_inv [of 2 x3 n3 x0] i3
  obtain x4 n4 where r4: "clz_round x3 n3 2 = Some (x4, n4, 1)"
    and i4: "unat x4 < 2 ^ (2 * 1)" "unat n4 \<le> 32" "x4 = drop_bit (32 - unat n4) x0"
            "(x4 = 0) = (x0 = 0)" "x0 = 0 \<longrightarrow> n4 = 32"
    by auto
  from clz_round_inv [of 1 x4 n4 x0] i4
  obtain x5 n5 where r5: "clz_round x4 n4 1 = Some (x5, n5, 0)"
    and i5: "unat x5 < 2" "unat n5 \<le> 32" "x5 = drop_bit (32 - unat n5) x0"
            "(x5 = 0) = (x0 = 0)" "x0 = 0 \<longrightarrow> n5 = 32"
    by auto
  from r1 r2 r3 r4 r5 i5 show ?thesis by blast
qed

lemma clz_loop_unroll:
  assumes "clz_round x0 n0 c0 = Some (x1, n1, c1)" "c1 \<noteq> 0"
      "clz_round x1 n1 c1 = Some (x2, n2, c2)" "c2 \<noteq> 0"
      "clz_round x2 n2 c2 = Some (x3, n3, c3)" "c3 \<noteq> 0"
      "clz_round x3 n3 c3 = Some (x4, n4, c4)" "c4 \<noteq> 0"
      "clz_round x4 n4 c4 = Some (x5, n5, 0)"
  shows "clz_loop x0 n0 c0 = Some (x5, n5, 0)"
proof -
  have l5: "clz_loop x4 n4 c4 = Some (x5, n5, 0)"
    by (subst clz_loop.simps) (simp add: assms)
  have l4: "clz_loop x3 n3 c3 = Some (x5, n5, 0)"
    by (subst clz_loop.simps) (simp add: assms l5)
  have l3: "clz_loop x2 n2 c2 = Some (x5, n5, 0)"
    by (subst clz_loop.simps) (simp add: assms l4)
  have l2: "clz_loop x1 n1 c1 = Some (x5, n5, 0)"
    by (subst clz_loop.simps) (simp add: assms l3)
  show ?thesis
    by (subst clz_loop.simps) (simp add: assms l2)
qed

lemma clz_loop_result:
  fixes x0 :: "32 word"
  shows "\<exists>x' n'. clz_loop x0 32 16 = Some (x', n', 0)
         \<and> unat x' < 2 \<and> unat n' \<le> 32 \<and> x' = drop_bit (32 - unat n') x0
         \<and> (x' = 0) = (x0 = 0) \<and> (x0 = 0 \<longrightarrow> n' = 32)"
proof -
  from clz_rounds [of x0] obtain x1 n1 x2 n2 x3 n3 x4 n4 x5 n5 where
    r: "clz_round x0 32 16 = Some (x1, n1, 8)"
       "clz_round x1 n1 8 = Some (x2, n2, 4)"
       "clz_round x2 n2 4 = Some (x3, n3, 2)"
       "clz_round x3 n3 2 = Some (x4, n4, 1)"
       "clz_round x4 n4 1 = Some (x5, n5, 0)"
    and i: "unat x5 < 2" "unat n5 \<le> 32" "x5 = drop_bit (32 - unat n5) x0"
       "(x5 = 0) = (x0 = 0)" "x0 = 0 \<longrightarrow> n5 = 32"
    by blast
  have "clz_loop x0 32 16 = Some (x5, n5, 0)"
    by (rule clz_loop_unroll [OF r(1) _ r(2) _ r(3) _ r(4) _ r(5)]) simp_all
  with i show ?thesis by blast
qed

section \<open>What \<open>clz\<close> returns\<close>

lemma clz_zero: "clz 0 = Some 32"
  using clz_loop_result [of 0] by (auto simp: clz_def)

lemma clz_nonzero:
  fixes x :: "32 word"
  assumes "x \<noteq> 0"
  shows "\<exists>z. clz x = Some z \<and> unat z \<le> 31
            \<and> 2 ^ (31 - unat z) \<le> unat x \<and> unat x < 2 ^ (32 - unat z)"
proof -
  from clz_loop_result [of x] obtain x' n' where
    l: "clz_loop x 32 16 = Some (x', n', 0)"
    and i: "unat x' < 2" "unat n' \<le> 32" "x' = drop_bit (32 - unat n') x"
       "(x' = 0) = (x = 0)"
    by blast
  have "x' \<noteq> 0" using i(4) assms by simp
  then have "unat x' \<noteq> 0" by (simp add: unat_eq_0)
  with i(1) have "unat x' = 1" by simp
  then have x1: "x' = 1" by (simp add: word_unat_eq_iff)
  have nz: "drop_bit (32 - unat n') x \<noteq> 0" using i(3) x1 by auto
  then have "32 - unat n' < 32" by (rule drop_bit_nonzero_less)
  then have n1: "1 \<le> unat n'" by simp
  have uz: "unat (n' - 1) = unat n' - 1" using n1 by (simp add: unat_sub_if')
  have d: "unat x div 2 ^ (32 - unat n') = 1"
    using i(3) x1 unat_drop_bit32 [of "32 - unat n'" x] by simp
  have e1: "31 - (unat n' - 1) = 32 - unat n'" using n1 i(2) by simp
  have e2: "32 - (unat n' - 1) = Suc (32 - unat n')" using n1 i(2) by simp
  have lo: "2 ^ (32 - unat n') \<le> unat x"
  proof (rule ccontr)
    assume "\<not> 2 ^ (32 - unat n') \<le> unat x"
    then have "unat x div 2 ^ (32 - unat n') = 0" by simp
    with d show False by simp
  qed
  have hi: "unat x < 2 ^ Suc (32 - unat n')"
  proof (rule ccontr)
    assume "\<not> unat x < 2 ^ Suc (32 - unat n')"
    then have "2 * 2 ^ (32 - unat n') \<le> unat x" by simp
    then have "2 \<le> unat x div 2 ^ (32 - unat n')"
      by (simp add: less_eq_div_iff_mult_less_eq)
    with d show False by simp
  qed
  have "clz x = Some (n' - 1)" using l x1 by (simp add: clz_def)
  moreover have "unat (n' - 1) \<le> 31" using uz i(2) by simp
  ultimately show ?thesis using lo hi uz e1 e2 by simp
qed

section \<open>Signed and unsigned readings\<close>

lemma sint_eq_unat:
  fixes n :: "32 word"
  assumes "unat n < 2 ^ 31"
  shows "sint n = int (unat n)"
proof -
  have "int (unat n) < int (2 ^ 31)" using assms by (simp only: of_nat_less_iff)
  then have "uint n < 2 ^ 31" by simp
  moreover have "- (2 ^ 31) \<le> (0::int)" by simp
  then have "- (2 ^ 31) \<le> uint n" using uint_ge_0 [of n] by (rule order_trans)
  ultimately have "signed_take_bit 31 (uint n) = uint n"
    by (rule signed_take_bit_int_eq_self [rotated])
  then show ?thesis by (simp add: sint_uint)
qed

lemma sint_pos_unat:
  fixes n :: "32 word"
  assumes "1 \<le> sint n"
  shows "sint n = int (unat n)" and "unat n < 2 ^ 31" and "n \<noteq> 0"
proof -
  have lt: "sint n < 2 ^ 31" using sint_lt [of n] by simp
  then have "sint n < 2 ^ 32" by simp
  then have "take_bit 32 (sint n) = sint n"
    using assms by (simp add: take_bit_int_eq_self)
  then have e: "uint n = sint n" using uint_sint [of n] by simp
  then show s: "sint n = int (unat n)" by simp
  have "int (unat n) < int (2 ^ 31)" using lt e by simp
  then show "unat n < 2 ^ 31" by (simp only: of_nat_less_iff)
  show "n \<noteq> 0" using assms by auto
qed

lemma two_power_word:
  assumes "w \<le> 31"
  shows "unat (2 ^ w - 1 :: 32 word) = 2 ^ w - 1"
    and "sint (2 ^ w - 1 :: 32 word) = 2 ^ w - 1"
proof -
  have "(2::nat) ^ w < 2 ^ 32" using assms by (intro power_strict_increasing) simp_all
  then have "(2::nat) ^ w mod 2 ^ 32 = 2 ^ w" by (rule mod_less)
  moreover have "unat (2 ^ w :: 32 word) = 2 ^ w mod 2 ^ 32"
    using unat_of_nat [where 'a = 32, of "2 ^ w"] by simp
  ultimately have p: "unat (2 ^ w :: 32 word) = 2 ^ w" by simp
  then have "(2 ^ w :: 32 word) \<noteq> 0" by (metis power_not_zero unat_0 zero_neq_numeral)
  then show u: "unat (2 ^ w - 1 :: 32 word) = 2 ^ w - 1"
    using p by (simp add: unat_minus_one)
  have "(2::nat) ^ w \<le> 2 ^ 31" using assms by (intro power_increasing) simp_all
  then have b: "unat (2 ^ w - 1 :: 32 word) < 2 ^ 31" using u by simp
  show "sint (2 ^ w - 1 :: 32 word) = 2 ^ w - 1"
    using sint_eq_unat [OF b] u by simp
qed

section \<open>What \<open>smallestNumber\<close> returns\<close>

lemma smallestNumber_width:
  fixes n :: "32 word"
  assumes "1 \<le> sint n"
  shows "\<exists>w. 1 \<le> w \<and> w \<le> 31 \<and> clz n = Some (of_nat (32 - w))
           \<and> 2 ^ (w - 1) \<le> unat n \<and> unat n < 2 ^ w
           \<and> shl_i32 1 (32 - of_nat (32 - w)) = Some (2 ^ w)
           \<and> smallestNumber n = Some (2 ^ w - 1)"
proof -
  note p = sint_pos_unat [OF assms]
  from clz_nonzero [OF p(3)] obtain z where
    z: "clz n = Some z" "unat z \<le> 31" "2 ^ (31 - unat z) \<le> unat n"
       "unat n < 2 ^ (32 - unat z)"
    by blast
  define w where "w = 32 - unat z"
  have "(2::nat) ^ (31 - unat z) < 2 ^ 31" using z(3) p(2) by (rule le_less_trans)
  then have "31 - unat z < 31" by (rule two_power_less_imp_less)
  then have z1: "1 \<le> unat z" by simp
  have w: "1 \<le> w" "w \<le> 31" "w - 1 = 31 - unat z" "32 - w = unat z"
    using z1 z(2) by (simp_all add: w_def)
  have zw: "of_nat (32 - w) = z" using w(4) by simp
  have "unat (32 - z) = unat (32 :: 32 word) - unat z"
    using z(2) by (simp add: unat_sub_if')
  then have u: "unat (32 - z) = w" by (simp add: w_def)
  have sh: "shl_i32 1 (32 - z) = Some (2 ^ w)"
    using u w(2) by (simp add: shl_i32_def)
  have "smallestNumber n = Some (2 ^ w - 1)"
    using z(1) sh by (simp add: smallestNumber_def)
  with w z sh zw show ?thesis unfolding w_def [symmetric] by auto
qed

lemma width_unique:
  fixes X :: nat
  assumes "2 ^ (a - 1) \<le> X" "X < 2 ^ b" "1 \<le> a"
  shows "a \<le> b"
proof -
  have "(2::nat) ^ (a - 1) < 2 ^ b" using assms(1,2) by (rule le_less_trans)
  then have "a - 1 < b" by (rule two_power_less_imp_less)
  with assms(3) show ?thesis by simp
qed

lemma smallestNumber_mask:
  assumes "1 \<le> w" "w \<le> 31"
  shows "smallestNumber (2 ^ w - 1) = Some (2 ^ w - 1)"
proof -
  note t = two_power_word [OF assms(2)]
  have ge: "(2::nat) ^ 1 \<le> 2 ^ w" using assms(1) by (intro power_increasing) simp_all
  have "(2::int) ^ 1 \<le> 2 ^ w" using assms(1) by (intro power_increasing) simp_all
  then have "(1::int) \<le> 2 ^ w - 1" by simp
  then have pos: "1 \<le> sint (2 ^ w - 1 :: 32 word)" using t(2) by simp
  from smallestNumber_width [OF pos] obtain v where
    v: "1 \<le> v" "v \<le> 31" "2 ^ (v - 1) \<le> unat (2 ^ w - 1 :: 32 word)"
       "unat (2 ^ w - 1 :: 32 word) < 2 ^ v"
       "smallestNumber (2 ^ w - 1) = Some (2 ^ v - 1)"
    by blast
  have lo: "2 ^ (v - 1) \<le> (2::nat) ^ w - 1" and hi: "(2::nat) ^ w - 1 < 2 ^ v"
    using v(3,4) t(1) by simp_all
  have "(2::nat) \<le> 2 ^ w" using ge by simp
  with lo have "2 ^ (v - 1) < (2::nat) ^ w" by linarith
  then have "v - 1 < w" by (rule two_power_less_imp_less)
  then have "v \<le> w" by simp
  moreover have "w \<le> v"
  proof (rule ccontr)
    assume "\<not> w \<le> v"
    then have "Suc v \<le> w" by simp
    then have "(2::nat) ^ Suc v \<le> 2 ^ w" by (intro power_increasing) simp_all
    then show False using hi by simp
  qed
  ultimately show ?thesis using v(5) by simp
qed

section \<open>Evaluation on literal inputs\<close>

lemmas clz_eval = clz_def clz_loop.simps clz_round_def shr_u32_def sar_i32_def

lemma smallestNumber_1: "smallestNumber 1 = Some 1"
  by (simp add: smallestNumber_def shl_i32_def clz_eval)

lemma smallestNumber_509: "smallestNumber 509 = Some 511"
  by (simp add: smallestNumber_def shl_i32_def clz_eval)

lemma smallestNumber_1000: "smallestNumber 1000 = Some 1023"
  by (simp add: smallestNumber_def shl_i32_def clz_eval)

section \<open>The bit length of the specification\<close>

lemma spec_bit_length_below_bounds:
  fixes x :: "32 word"
  shows "take_bit k (unat x) < 2 ^ spec_bit_length_below k x
       \<and> (take_bit k (unat x) \<noteq> 0 \<longrightarrow> 2 ^ (spec_bit_length_below k x - 1) \<le> take_bit k (unat x))"
proof (induction k)
  case 0
  show ?case by simp
next
  case (Suc k)
  have b: "bit (unat x) k = bit x k" by (simp add: bit_unsigned_iff)
  have t: "take_bit (Suc k) (unat x) = 2 ^ k * of_bool (bit x k) + take_bit k (unat x)"
    using take_bit_Suc_from_most [of k "unat x"] b by simp
  show ?case
  proof (cases "bit x k")
    case True
    have "take_bit k (unat x) < 2 ^ k" by simp
    with True t show ?thesis by simp
  next
    case False
    with t Suc show ?thesis by simp
  qed
qed

lemma spec_bit_length_bounds:
  fixes x :: "32 word"
  assumes "x \<noteq> 0"
  shows "1 \<le> spec_bit_length x" and "2 ^ (spec_bit_length x - 1) \<le> unat x"
    and "unat x < 2 ^ spec_bit_length x"
proof -
  have "unat x < 2 ^ 32" using unsigned_less [of x] by simp
  then have t: "take_bit 32 (unat x) = unat x" by (simp only: take_bit_nat_eq_self)
  have nz: "unat x \<noteq> 0" using assms by (simp add: unat_eq_0)
  from spec_bit_length_below_bounds [of 32 x] t nz
  show "2 ^ (spec_bit_length x - 1) \<le> unat x" and u: "unat x < 2 ^ spec_bit_length x"
    by (simp_all add: spec_bit_length_def)
  show "1 \<le> spec_bit_length x"
  proof (rule ccontr)
    assume "\<not> 1 \<le> spec_bit_length x"
    then have "spec_bit_length x = 0" by simp
    with u nz show False by simp
  qed
qed

section \<open>The claims\<close>

text \<open>
  C5. \<open>clz(0)\<close> returns 32, and for every 32-bit unsigned \<open>x\<close> the call \<open>clz(x)\<close> returns
  a value in the range from 0 to 32.
\<close>

theorem clz_result_range:
  "clz 0 = Some 32 \<and> (\<exists>z. clz x = Some z \<and> 0 \<le> unat z \<and> unat z \<le> 32)"
proof (cases "x = 0")
  case True
  then show ?thesis using clz_zero by simp
next
  case False
  from clz_nonzero [OF False] obtain z where "clz x = Some z" "unat z \<le> 31" by blast
  then show ?thesis using clz_zero by simp
qed

text \<open>
  C10. On the input 0 the call \<open>smallestNumber(0)\<close> returns 0: \<open>clz(0)\<close> is 32, the shift
  amount \<open>32 - 32\<close> is 0, \<open>1 << 0\<close> is 1, and \<open>1 - 1\<close> is 0.
\<close>

theorem smallestNumber_zero:
  "clz 0 = Some 32 \<and> shl_i32 1 (32 - 32) = Some 1 \<and> smallestNumber 0 = Some 0"
  using clz_zero by (simp add: smallestNumber_def shl_i32_def)

text \<open>
  C1. For every \<open>int\<close> \<open>n\<close> with \<open>1 \<le> n < 2 ^ 31\<close>, \<open>smallestNumber(n)\<close> returns
  \<open>(1 << (32 - clz(n))) - 1\<close>, the shift being defined, and read as a signed 32-bit value
  the result is \<open>2 ^ \<lceil>log\<^sub>2 (n + 1)\<rceil> - 1\<close>.
\<close>

theorem smallestNumber_formula:
  fixes n :: "32 word"
  assumes "1 \<le> sint n" and "sint n < 2 ^ 31"
  shows "\<exists>z p r. clz n = Some z \<and> shl_i32 1 (32 - z) = Some p \<and> smallestNumber n = Some r
           \<and> r = p - 1
           \<and> sint r = 2 ^ nat \<lceil>log 2 (real_of_int (sint n + 1))\<rceil> - 1"
proof -
  from smallestNumber_width [OF assms(1)] obtain w where
    w: "1 \<le> w" "w \<le> 31" "clz n = Some (of_nat (32 - w))"
       "2 ^ (w - 1) \<le> unat n" "unat n < 2 ^ w"
       "shl_i32 1 (32 - of_nat (32 - w)) = Some (2 ^ w)"
       "smallestNumber n = Some (2 ^ w - 1)"
    by blast
  have s: "sint n = int (unat n)" by (rule sint_pos_unat(1) [OF assms(1)])
  have "2 ^ (w - 1) < unat n + 1" "unat n + 1 \<le> 2 ^ (w - 1 + 1)"
    using w(1,4,5) by simp_all
  then have c: "\<lceil>log (real 2) (real (unat n + 1))\<rceil> = int (w - 1) + 1"
    by (rule ceiling_log_nat_eq_if) simp
  have iw: "int (w - 1) + 1 = int w" using w(1) by simp
  have r2: "real 2 = 2" by simp
  have e: "real_of_int (sint n + 1) = real (unat n + 1)" unfolding s by simp
  have "\<lceil>log 2 (real_of_int (sint n + 1))\<rceil> = int w"
    using c unfolding iw r2 e .
  then have "nat \<lceil>log 2 (real_of_int (sint n + 1))\<rceil> = w" by simp
  moreover have "sint (2 ^ w - 1 :: 32 word) = 2 ^ w - 1" by (rule two_power_word(2) [OF w(2)])
  ultimately show ?thesis using w(3,6,7) by simp
qed

theorem smallestNumber_formula_witness:
  "1 \<le> sint (1000 :: 32 word) \<and> sint (1000 :: 32 word) < 2 ^ 31
   \<and> (\<exists>z p r. clz 1000 = Some z \<and> shl_i32 1 (32 - z) = Some p \<and> smallestNumber 1000 = Some r
           \<and> r = p - 1
           \<and> sint r = 2 ^ nat \<lceil>log 2 (real_of_int (sint (1000 :: 32 word) + 1))\<rceil> - 1)"
  using smallestNumber_formula [of 1000] by simp

text \<open>
  C2 (as amended). For every \<open>n\<close> of the form \<open>2 ^ k - 1\<close> with \<open>2 \<le> k\<close> and \<open>n < 2 ^ 31\<close>,
  \<open>smallestNumber(n)\<close> returns \<open>n\<close> itself, that is \<open>2 ^ k - 1\<close>; in particular
  \<open>smallestNumber(3)\<close> returns 3.
\<close>

theorem smallestNumber_exact_mask:
  assumes "2 \<le> k" and "k \<le> 31"
  shows "smallestNumber (2 ^ k - 1) = Some (2 ^ k - 1)"
  using assms by (intro smallestNumber_mask) simp_all

theorem smallestNumber_exact_mask_witness:
  "(2::nat) \<le> 2 \<and> (2::nat) \<le> 31 \<and> smallestNumber 3 = Some 3"
  using smallestNumber_exact_mask [of 2] by simp

text \<open>
  C2 as stated fails at \<open>k = 2\<close>: \<open>clz(3)\<close> is 30, the shift amount is 2, and
  \<open>smallestNumber(3)\<close> is \<open>(1 << 2) - 1 = 3\<close>, not 7.
\<close>

theorem smallestNumber_exact_mask_counterexample:
  "smallestNumber 3 = Some 3 \<and> smallestNumber 3 \<noteq> Some 7"
  by (simp add: smallestNumber_def shl_i32_def clz_eval)

text \<open>
  C3. \<open>main\<close> returns normally from any starting memory. It performs exactly three stores,
  in this order: 1 to address 4, 511 to address 8, 1023 to address 12. Afterwards these three
  addresses hold these values and every other address holds what it held before.
\<close>

theorem main_writes:
  "main m0 = Some (m0\<lparr>mem := (mem m0)(4 \<mapsto> 1, 8 \<mapsto> 511, 12 \<mapsto> 1023),
                       stores := stores m0 @ [(4, 1), (8, 511), (12, 1023)]\<rparr>)
   \<and> (\<exists>m'. main m0 = Some m' \<and> mem m' 4 = Some 1 \<and> mem m' 8 = Some 511 \<and> mem m' 12 = Some 1023)"
  by (simp add: main_def store_int_def smallestNumber_1 smallestNumber_509 smallestNumber_1000)

text \<open>
  C4. For every 32-bit unsigned \<open>x \<noteq> 0\<close>, \<open>clz(x)\<close> plus the bit length of \<open>x\<close> (the position
  of the highest set bit plus one) is 32, and \<open>2 ^ (31 - clz(x)) \<le> x < 2 ^ (32 - clz(x))\<close>.
\<close>

theorem clz_plus_bit_length:
  fixes x :: "32 word"
  assumes "x \<noteq> 0"
  shows "\<exists>z. clz x = Some z \<and> unat z + spec_bit_length x = 32
           \<and> 2 ^ (31 - unat z) \<le> unat x \<and> unat x < 2 ^ (32 - unat z)"
proof -
  from clz_nonzero [OF assms] obtain z where
    z: "clz x = Some z" "unat z \<le> 31" "2 ^ (31 - unat z) \<le> unat x"
       "unat x < 2 ^ (32 - unat z)"
    by blast
  note b = spec_bit_length_bounds [OF assms]
  have e: "32 - unat z - 1 = 31 - unat z" by simp
  have "spec_bit_length x \<le> 32 - unat z"
    using b(2) z(4) b(1) by (rule width_unique)
  moreover have "32 - unat z \<le> spec_bit_length x"
    using z(3) b(3) z(2) by (intro width_unique [of "32 - unat z" "unat x"]) (simp_all add: e)
  ultimately have "unat z + spec_bit_length x = 32" using z(2) by simp
  with z show ?thesis by blast
qed

theorem clz_plus_bit_length_witness:
  "(1000 :: 32 word) \<noteq> 0
   \<and> (\<exists>z. clz 1000 = Some z \<and> unat z + spec_bit_length 1000 = 32
           \<and> 2 ^ (31 - unat z) \<le> unat (1000 :: 32 word) \<and> unat (1000 :: 32 word) < 2 ^ (32 - unat z))"
  using clz_plus_bit_length [of 1000] by simp

text \<open>
  C6. \<open>clz\<close> returns on every 32-bit input. Whatever \<open>x\<close> is, the body runs with the strides
  16, 8, 4, 2 and 1: after each of the first four rounds the stride is still nonzero, so the
  loop goes on, and the fifth round leaves the stride 0, so the loop stops there and its
  result is the state after the fifth round.
\<close>

theorem clz_five_rounds:
  fixes x :: "32 word"
  shows "\<exists>x1 n1 x2 n2 x3 n3 x4 n4 x5 n5.
           clz_round x 32 16 = Some (x1, n1, 8)
         \<and> clz_round x1 n1 8 = Some (x2, n2, 4)
         \<and> clz_round x2 n2 4 = Some (x3, n3, 2)
         \<and> clz_round x3 n3 2 = Some (x4, n4, 1)
         \<and> clz_round x4 n4 1 = Some (x5, n5, 0)
         \<and> clz_loop x 32 16 = Some (x5, n5, 0)
         \<and> clz x = Some (n5 - x5)"
proof -
  from clz_rounds [of x] obtain x1 n1 x2 n2 x3 n3 x4 n4 x5 n5 where
    r: "clz_round x 32 16 = Some (x1, n1, 8)"
       "clz_round x1 n1 8 = Some (x2, n2, 4)"
       "clz_round x2 n2 4 = Some (x3, n3, 2)"
       "clz_round x3 n3 2 = Some (x4, n4, 1)"
       "clz_round x4 n4 1 = Some (x5, n5, 0)"
    by blast
  have l: "clz_loop x 32 16 = Some (x5, n5, 0)"
    by (rule clz_loop_unroll [OF r(1) _ r(2) _ r(3) _ r(4) _ r(5)]) simp_all
  then have "clz x = Some (n5 - x5)" by (simp add: clz_def)
  with r l show ?thesis by blast
qed

text \<open>
  C7. \<open>smallestNumber\<close> is non-decreasing on the positive \<open>int\<close> values: for
  \<open>1 \<le> m \<le> n < 2 ^ 31\<close>, both calls return and \<open>smallestNumber(m) \<le> smallestNumber(n)\<close>.
\<close>

theorem smallestNumber_mono:
  fixes m n :: "32 word"
  assumes "1 \<le> sint m" and "sint m \<le> sint n" and "sint n < 2 ^ 31"
  shows "\<exists>a b. smallestNumber m = Some a \<and> smallestNumber n = Some b \<and> sint a \<le> sint b"
proof -
  have pn: "1 \<le> sint n" using assms(1,2) by simp
  from smallestNumber_width [OF assms(1)] obtain v where
    v: "1 \<le> v" "v \<le> 31" "2 ^ (v - 1) \<le> unat m" "smallestNumber m = Some (2 ^ v - 1)"
    by blast
  from smallestNumber_width [OF pn] obtain w where
    w: "w \<le> 31" "unat n < 2 ^ w" "smallestNumber n = Some (2 ^ w - 1)"
    by blast
  have "int (unat m) \<le> int (unat n)"
    using assms(2) sint_pos_unat(1) [OF assms(1)] sint_pos_unat(1) [OF pn] by simp
  then have "unat m \<le> unat n" by (simp only: of_nat_le_iff)
  with v(3) have "2 ^ (v - 1) \<le> unat n" by simp
  then have "v \<le> w" using w(2) v(1) by (rule width_unique)
  then have "(2::int) ^ v \<le> 2 ^ w" by (intro power_increasing) simp_all
  then have "(2::int) ^ v - 1 \<le> 2 ^ w - 1" by linarith
  then have "sint (2 ^ v - 1 :: 32 word) \<le> sint (2 ^ w - 1 :: 32 word)"
    unfolding two_power_word(2) [OF v(2)] two_power_word(2) [OF w(1)] .
  with v(4) w(3) show ?thesis by simp
qed

theorem smallestNumber_mono_witness:
  "1 \<le> sint (5 :: 32 word) \<and> sint (5 :: 32 word) \<le> sint (1000 :: 32 word)
   \<and> sint (1000 :: 32 word) < 2 ^ 31
   \<and> (\<exists>a b. smallestNumber 5 = Some a \<and> smallestNumber 1000 = Some b \<and> sint a \<le> sint b)"
  using smallestNumber_mono [of 5 1000] by simp

text \<open>
  C8. For every positive \<open>n < 2 ^ 31\<close>, \<open>smallestNumber(n)\<close> returns a value whose successor,
  taken in the integers, is a power of two.
\<close>

theorem smallestNumber_succ_power_of_two:
  fixes n :: "32 word"
  assumes "1 \<le> sint n" and "sint n < 2 ^ 31"
  shows "\<exists>r k. smallestNumber n = Some r \<and> sint r + 1 = 2 ^ k"
proof -
  from smallestNumber_width [OF assms(1)] obtain w where
    w: "w \<le> 31" "smallestNumber n = Some (2 ^ w - 1)"
    by blast
  have "sint (2 ^ w - 1 :: 32 word) + 1 = 2 ^ w"
    using two_power_word(2) [OF w(1)] by simp
  with w(2) show ?thesis by blast
qed

theorem smallestNumber_succ_power_of_two_witness:
  "1 \<le> sint (509 :: 32 word) \<and> sint (509 :: 32 word) < 2 ^ 31
   \<and> (\<exists>r k. smallestNumber 509 = Some r \<and> sint r + 1 = 2 ^ k)"
  using smallestNumber_succ_power_of_two [of 509] by simp

text \<open>
  C9. \<open>smallestNumber\<close> is idempotent on the positive \<open>int\<close> values: for \<open>1 \<le> n < 2 ^ 31\<close>
  the result of \<open>smallestNumber(n)\<close> is mapped to itself by \<open>smallestNumber\<close>.
\<close>

theorem smallestNumber_idem:
  fixes n :: "32 word"
  assumes "1 \<le> sint n" and "sint n < 2 ^ 31"
  shows "\<exists>r. smallestNumber n = Some r \<and> smallestNumber r = Some r"
proof -
  from smallestNumber_width [OF assms(1)] obtain w where
    w: "1 \<le> w" "w \<le> 31" "smallestNumber n = Some (2 ^ w - 1)"
    by blast
  from smallestNumber_mask [OF w(1,2)] w(3) show ?thesis by simp
qed

theorem smallestNumber_idem_witness:
  "1 \<le> sint (1000 :: 32 word) \<and> sint (1000 :: 32 word) < 2 ^ 31
   \<and> (\<exists>r. smallestNumber 1000 = Some r \<and> smallestNumber r = Some r)"
  using smallestNumber_idem [of 1000] by simp

end
